theory Spec2Isabelle
  imports Main
begin

section \<open>Text\<close>

text \<open>
  A Python \<open>str\<close> is a sequence of Unicode code points, and \<open>len\<close>, slicing, \<open>rfind\<close>
  and \<open>strip\<close> all count code points. The prompts of this program are Chinese, so a text
  is a list of code points here, not a list of bytes. \<open>str\<close> turns an ASCII literal into
  such a text.
\<close>

type_synonym utext = "nat list"

definition str :: "string \<Rightarrow> utext" where
  "str s = map of_char s"

text \<open>
  \<open>s.startswith(p)\<close>.
\<close>

definition startswith :: "utext \<Rightarrow> utext \<Rightarrow> bool" where
  "startswith s p = (take (length p) s = p)"

text \<open>
  \<open>str.isspace\<close> of one character, as CPython decides it (\<open>_PyUnicode_IsWhitespace\<close>):
  the characters of bidirectional type WS, B or S and of category Zs.
\<close>

definition isspace :: "nat \<Rightarrow> bool" where
  "isspace c =
     ((9 \<le> c \<and> c \<le> 13) \<or> (28 \<le> c \<and> c \<le> 32) \<or> c = 133 \<or> c = 160 \<or> c = 5760 \<or>
      (8192 \<le> c \<and> c \<le> 8202) \<or> c = 8232 \<or> c = 8233 \<or> c = 8239 \<or> c = 8287 \<or>
      c = 12288)"

text \<open>
  \<open>s.strip()\<close> with no argument: whitespace is dropped at both ends.
\<close>

definition strip :: "utext \<Rightarrow> utext" where
  "strip s = rev (dropWhile isspace (rev (dropWhile isspace s)))"

text \<open>
  The slice \<open>s[a:b]\<close> for indices \<open>0 \<le> a\<close>, \<open>0 \<le> b\<close>; it is empty when \<open>b \<le> a\<close>
  and clipped at the end of \<open>s\<close>.
\<close>

definition slice :: "utext \<Rightarrow> nat \<Rightarrow> nat \<Rightarrow> utext" where
  "slice s a b = take (b - a) (drop a s)"

text \<open>
  \<open>sub\<close> occurs in \<open>s\<close> at index \<open>i\<close>: \<open>s[i : i + len(sub)] == sub\<close>, the slice
  being whole.
\<close>

definition occurs_at :: "utext \<Rightarrow> utext \<Rightarrow> nat \<Rightarrow> bool" where
  "occurs_at sub s i = (i + length sub \<le> length s \<and> take (length sub) (drop i s) = sub)"

text \<open>
  \<open>s.rfind(sub, lo, hi)\<close> for \<open>0 \<le> lo\<close>, \<open>0 \<le> hi\<close>: the highest index \<open>i \<ge> lo\<close> at
  which \<open>sub\<close> occurs inside \<open>s[lo:hi]\<close>, so that \<open>i + len(sub) \<le> min(hi, len(s))\<close>.
  \<open>None\<close> is Python's \<open>-1\<close>. \<open>rfind_below sub s lo n\<close> scans the candidate indices
  \<open>n - 1, n - 2, \<dots>, lo\<close> from the right.
\<close>

fun rfind_below :: "utext \<Rightarrow> utext \<Rightarrow> nat \<Rightarrow> nat \<Rightarrow> nat option" where
  "rfind_below sub s lo 0 = None"
| "rfind_below sub s lo (Suc n) =
     (if n < lo then None
      else if occurs_at sub s n then Some n
      else rfind_below sub s lo n)"

definition rfind :: "utext \<Rightarrow> utext \<Rightarrow> nat \<Rightarrow> nat \<Rightarrow> nat option" where
  "rfind s sub lo hi =
     (let e = min hi (length s)
      in if e < length sub then None else rfind_below sub s lo (Suc (e - length sub)))"

section \<open>Directive extraction (workflow/agentic\_search.py)\<close>

definition close_tag :: utext where
  "close_tag = str ''</search>''"

definition open_tag :: utext where
  "open_tag = str ''<search>''"

text \<open>
  \<open>extract_search_query\<close>: the rightmost closing tag, then the rightmost opening tag
  that ends at or before it, then the stripped text between the two.
\<close>

definition extract_search_query :: "utext \<Rightarrow> utext option" where
  "extract_search_query txt =
     (if txt = [] then None
      else case rfind txt close_tag 0 (length txt) of
        None \<Rightarrow> None
      | Some close_idx \<Rightarrow>
          (case rfind txt open_tag 0 close_idx of
             None \<Rightarrow> None
           | Some open_idx \<Rightarrow>
               (let start = open_idx + length open_tag
                in Some (strip (slice txt start close_idx)))))"

text \<open>
  The positions the scan is meant to find: \<open>i\<close> is the rightmost closing tag of
  \<open>txt\<close>, and \<open>j\<close> is the rightmost opening tag that lies wholly before position \<open>i\<close>.
\<close>

definition last_close :: "utext \<Rightarrow> nat \<Rightarrow> bool" where
  "last_close txt i =
     (occurs_at close_tag txt i \<and> (\<forall>k \<in> {i <.. length txt}. \<not> occurs_at close_tag txt k))"

definition last_open_before :: "utext \<Rightarrow> nat \<Rightarrow> nat \<Rightarrow> bool" where
  "last_open_before txt i j =
     (occurs_at open_tag txt j \<and> j + length open_tag \<le> i \<and>
      (\<forall>k \<in> {j <.. i}. occurs_at open_tag txt k \<longrightarrow> i < k + length open_tag))"

text \<open>
  A complete directive span: an opening tag at \<open>j\<close> and a closing tag at \<open>i\<close> that starts
  at or after the end of the opening tag.
\<close>

definition complete_span :: "utext \<Rightarrow> nat \<Rightarrow> nat \<Rightarrow> bool" where
  "complete_span txt j i =
     (occurs_at open_tag txt j \<and> occurs_at close_tag txt i \<and> j + length open_tag \<le> i)"

section \<open>Formatting helpers\<close>

text \<open>
  The decimal digits of a natural number, as \<open>str(n)\<close> and the \<open>{n}\<close> of an f-string
  print them, and the same for an \<open>int\<close>.
\<close>

fun digits :: "nat \<Rightarrow> utext" where
  "digits n = (if n < 10 then [48 + n] else digits (n div 10) @ [48 + n mod 10])"

declare digits.simps [simp del]

definition str_of_nat :: "nat \<Rightarrow> utext" where
  "str_of_nat n = digits n"

definition str_of_int :: "int \<Rightarrow> utext" where
  "str_of_int i = (if i < 0 then str ''-'' @ str_of_nat (nat (- i)) else str_of_nat (nat i))"

text \<open>
  The slice \<open>xs[:k]\<close> for a Python \<open>int\<close> \<open>k\<close>: a negative \<open>k\<close> counts from the end.
\<close>

definition slice_to :: "'a list \<Rightarrow> int \<Rightarrow> 'a list" where
  "slice_to xs k = (if 0 \<le> k then take (nat k) xs else take (length xs - nat (- k)) xs)"

text \<open>
  \<open>sep.join(xs)\<close>.
\<close>

fun join :: "utext \<Rightarrow> utext list \<Rightarrow> utext" where
  "join sep [] = []"
| "join sep [x] = x"
| "join sep (x # y # ys) = x @ sep @ join sep (y # ys)"

section \<open>The outside world\<close>

text \<open>
  An exception carries the text that \<open>str(e)\<close> prints. A call of an external service
  either raises or returns a response.
\<close>

datatype exn = Exception (message: utext)

text \<open>
  A search result as \<open>serper_search\<close> builds it, and a page as \<open>search_and_fetch\<close>
  builds it; both are dictionaries with exactly these keys.
\<close>

record hit =
  title :: utext
  url :: utext
  snippet :: utext

record page = hit +
  content :: utext

text \<open>
  One entry of the \<open>organic\<close> list of the search provider's JSON answer; each key may
  be missing. The provider's response: whether the status is a success, and what
  \<open>response.json()\<close> gives, the \<open>organic\<close> list (empty when the key is missing) or an
  exception.
\<close>

record organic_item =
  item_title :: "utext option"
  item_link :: "utext option"
  item_snippet :: "utext option"

record serper_response =
  ok :: bool
  response_text :: utext
  organic :: "exn + organic_item list"

text \<open>
  The response of the page extraction service, and of the model server: the status code,
  the body as text and, for a streamed body, its lines.
\<close>

record jina_response =
  status_code :: int
  body :: utext

record vllm_response =
  vllm_status :: int
  vllm_text :: utext
  vllm_lines :: "utext list"

text \<open>
  The content parts of a conversation message, before and after \<open>prepare_messages\<close>, and
  the request sent to the model server. The sampling parameters of the request are
  constants of the client and are not part of the model.
\<close>

datatype role = User | Assistant

datatype part = TextPart utext | ImagePath utext

record message =
  role :: role
  msg_content :: "part list"

datatype vllm_part = VText utext | VImageUrl utext

record vllm_message =
  vllm_role :: role
  vllm_content :: "vllm_part list"

record payload =
  messages :: "vllm_message list"
  stop :: "utext list"
  include_stop_str_in_output :: bool

text \<open>
  Every call that leaves the process is recorded, in order. The number of calls made so
  far is the clock that the outside world answers by, so that the same request may get a
  different answer at a different time.
\<close>

datatype call =
    SerperCall utext int
  | JinaCall utext
  | DeepSeekCall utext
  | VllmCall payload

text \<open>
  The outside world: the search provider, the page extraction service (each job of a
  batch has an index, and finishes at some time), the summarising model, the model
  server, the image files, and the JSON decoding of one streamed chunk, which stands for
  \<open>json.loads(data)["choices"][0]["delta"].get("content", "")\<close>.
\<close>

record env =
  serper_post :: "nat \<Rightarrow> utext \<Rightarrow> exn + serper_response"
  jina_get :: "nat \<Rightarrow> nat \<Rightarrow> utext \<Rightarrow> exn + jina_response"
  finish_time :: "nat \<Rightarrow> nat \<Rightarrow> nat"
  deepseek_create :: "nat \<Rightarrow> utext \<Rightarrow> exn + utext"
  vllm_post :: "nat \<Rightarrow> payload \<Rightarrow> exn + vllm_response"
  image_data_url :: "utext \<Rightarrow> exn + utext"
  chunk_delta :: "utext \<Rightarrow> exn + utext"

text \<open>
  The state the program changes: the cache file, read by \<open>load_cache\<close> and rewritten by
  \<open>save_cache\<close> (a missing or unreadable file is the empty dictionary; the disk is taken
  to be writable), and the record of external calls.
\<close>

record world =
  cache :: "utext \<rightharpoonup> page list"
  calls :: "call list"

definition clock :: "world \<Rightarrow> nat" where
  "clock w = length (calls w)"

section \<open>Search provider and page fetcher (utils/search.py)\<close>

text \<open>
  \<open>serper_search\<close>: every failure inside the \<open>try\<close> block, the raised
  \<open>RuntimeError\<close> of a non-success status among them, is caught and gives the empty list.
\<close>

definition serper_search :: "env \<Rightarrow> nat \<Rightarrow> utext \<Rightarrow> int \<Rightarrow> hit list" where
  "serper_search e t query top_k =
     (case serper_post e t query of
        Inl exc \<Rightarrow> []
      | Inr response \<Rightarrow>
          if \<not> ok response then []
          else
            (case organic response of
               Inl exc \<Rightarrow> []
             | Inr items \<Rightarrow>
                 if items = [] then []
                 else map (\<lambda>item.
                        \<lparr>title = (case item_title item of None \<Rightarrow> [] | Some v \<Rightarrow> v),
                         url = (case item_link item of None \<Rightarrow> [] | Some v \<Rightarrow> v),
                         snippet = (case item_snippet item of None \<Rightarrow> [] | Some v \<Rightarrow> v)\<rparr>)
                      (slice_to items top_k)))"

text \<open>
  The regular expression \<open>\(https?:.*?\)|\[https?:.*?\]\<close> matched at the head of a text:
  an opening bracket, \<open>http\<close>, an optional \<open>s\<close>, a colon, then as few characters other
  than a newline as possible up to the closing bracket. The result is the length of the
  match.
\<close>

fun until_bracket :: "nat \<Rightarrow> utext \<Rightarrow> nat option" where
  "until_bracket c [] = None"
| "until_bracket c (x # xs) =
     (if x = c then Some 1
      else if x = 10 then None
      else map_option Suc (until_bracket c xs))"

definition match_link :: "utext \<Rightarrow> nat option" where
  "match_link s =
     (case s of
        [] \<Rightarrow> None
      | b # rest \<Rightarrow>
          if (b = 40 \<or> b = 91) \<and> startswith rest (str ''http'') then
            (let c = (if b = 40 then 41 else 93);
                 after = drop 4 rest;
                 k = (if startswith after (str ''s'') then 1 else 0)
             in if startswith (drop k after) (str '':'')
                then map_option (\<lambda>n. 6 + k + n) (until_bracket c (drop (Suc k) after))
                else None)
          else None)"

text \<open>
  \<open>re.sub(pattern, "", s)\<close>: every match is removed, scanning from the left; the first
  argument counts the characters of the current match that are still to be dropped.
\<close>

fun remove_links :: "nat \<Rightarrow> utext \<Rightarrow> utext" where
  "remove_links k [] = []"
| "remove_links (Suc k) (x # xs) = remove_links k xs"
| "remove_links 0 (x # xs) =
     (case match_link (x # xs) of
        Some n \<Rightarrow> remove_links (n - 1) xs
      | None \<Rightarrow> x # remove_links 0 xs)"

definition error_marker :: utext where
  "error_marker = str ''[Error]''"

text \<open>
  \<open>fetch_page_content\<close>, given what the request did: the whole body is inside
  \<open>try\<close>, so the function always returns a text.
\<close>

definition fetch_page_content :: "utext \<Rightarrow> (exn + jina_response) \<Rightarrow> utext" where
  "fetch_page_content u reply =
     (case reply of
        Inr resp \<Rightarrow>
          if status_code resp = 200 then strip (remove_links 0 (body resp))
          else str ''[Error] Jina error '' @ str_of_int (status_code resp) @ str '': '' @
               take 200 (body resp)
      | Inl e \<Rightarrow> str ''[Error] Failed fetching '' @ u @ str '': '' @ message e)"

text \<open>
  \<open>fetch_multiple_pages\<close>: one job per entry of \<open>urls\<close>, in order; \<open>as_completed\<close>
  hands the jobs back in the order in which they finish, and each stores its result
  under its URL. \<open>get i u\<close> is what the request of job \<open>i\<close> does and \<open>finish i\<close> is the
  time at which job \<open>i\<close> ends. A job returns what \<open>fetch_page_content\<close> returns; were it
  to raise, the handler would store a marked text instead. The size of the thread pool
  changes the schedule only, which \<open>finish\<close> stands for.
\<close>

definition future_result :: "utext \<Rightarrow> (exn + jina_response) \<Rightarrow> exn + utext" where
  "future_result u reply = Inr (fetch_page_content u reply)"

definition store_result ::
  "utext list \<Rightarrow> (nat \<Rightarrow> utext \<Rightarrow> exn + jina_response) \<Rightarrow> (utext \<rightharpoonup> utext) \<Rightarrow> nat \<Rightarrow> (utext \<rightharpoonup> utext)" where
  "store_result urls get results i =
     (let u = urls ! i
      in case future_result u (get i u) of
           Inr txt \<Rightarrow> results(u \<mapsto> txt)
         | Inl exc \<Rightarrow> results(u \<mapsto> str ''[Error] '' @ message exc))"

definition as_completed :: "(nat \<Rightarrow> nat) \<Rightarrow> nat \<Rightarrow> nat list" where
  "as_completed finish n = sort_key finish [0 ..< n]"

definition fetch_multiple_pages ::
  "utext list \<Rightarrow> (nat \<Rightarrow> utext \<Rightarrow> exn + jina_response) \<Rightarrow> (nat \<Rightarrow> nat) \<Rightarrow> (utext \<rightharpoonup> utext)" where
  "fetch_multiple_pages urls get finish =
     foldl (store_result urls get) Map.empty (as_completed finish (length urls))"

section \<open>Cached search (utils/search.py)\<close>

text \<open>
  \<open>search_and_fetch\<close>. On a hit nothing outside the process is called. On a miss the
  provider is called once and one page request is made per non-empty URL, then the
  combined list is stored under the query and the file rewritten.
\<close>

definition combine :: "hit list \<Rightarrow> (utext \<rightharpoonup> utext) \<Rightarrow> page list" where
  "combine search_results page_texts =
     map (\<lambda>item.
        \<lparr>title = title item, url = url item, snippet = snippet item,
         content = (case page_texts (url item) of None \<Rightarrow> [] | Some txt \<Rightarrow> txt)\<rparr>)
      search_results"

text \<open>
  The part of \<open>search_and_fetch\<close> after the early return of a cache hit. The provider
  answers at the current time, the page requests just after it.
\<close>

definition fresh_search :: "env \<Rightarrow> utext \<Rightarrow> int \<Rightarrow> world \<Rightarrow> page list \<times> world" where
  "fresh_search e query top_k w =
     (let t = clock w;
          search_results = serper_search e t query top_k;
          urls = filter (\<lambda>u. u \<noteq> []) (map url search_results);
          page_texts = fetch_multiple_pages urls (jina_get e (Suc t)) (finish_time e (Suc t));
          output = combine search_results page_texts
      in (output,
          w\<lparr>cache := (cache w)(query \<mapsto> output),
            calls := calls w @ SerperCall query top_k # map JinaCall urls\<rparr>))"

definition search_and_fetch :: "env \<Rightarrow> utext \<Rightarrow> int \<Rightarrow> world \<Rightarrow> page list \<times> world" where
  "search_and_fetch e query top_k w =
     (case cache w query of
        Some entry \<Rightarrow>
          if top_k \<le> int (length entry) then (slice_to entry top_k, w)
          else fresh_search e query top_k w
      | None \<Rightarrow> fresh_search e query top_k w)"

section \<open>Summariser (utils/search.py)\<close>

text \<open>
  The fixed instruction that opens the summarising prompt (163 code points of Chinese
  text, ending in two newlines), and the text returned when no page is usable.
\<close>

definition summary_instruction :: utext where
  "summary_instruction =
     [20320, 23558, 30475, 21040, 33509, 24178, 26469, 33258, 20114, 32852, 32593, 30340,
      32593, 39029, 20869, 23481, 65292, 36825, 20123, 32593, 39029, 26159, 22260, 32469,
      21516, 19968, 20027, 39064, 25235, 21462, 30340, 12290, 10, 35831, 22522, 20110,
      25152, 26377, 32593, 39029, 20869, 23481, 36827, 34892, 12304, 32508, 21512, 24615,
      24635, 32467, 12305, 65292, 35201, 27714, 65306, 10, 49, 46, 32, 34701, 21512, 25152,
      26377, 32593, 39029, 30340, 20449, 24687, 65292, 32780, 19981, 26159, 36880, 26465,
      22797, 36848, 65307, 10, 50, 46, 32, 21435, 38500, 37325, 22797, 20869, 23481, 65292,
      20445, 30041, 20851, 38190, 20449, 24687, 65307, 10, 51, 46, 32, 20445, 25345, 23458,
      35266, 12289, 20013, 31435, 12289, 20197, 20107, 23454, 20026, 20027, 65307, 10, 52,
      46, 32, 29992, 28165, 26224, 12289, 36830, 36143, 30340, 33258, 28982, 35821, 35328,
      34920, 36848, 12290, 10, 53, 46, 32, 30452, 25509, 32473, 20986, 24635, 32467, 20869,
      23481, 65292, 19981, 35201, 35828, 26126, 36807, 31243, 12290, 10, 10, 20197, 19979,
      26159, 32593, 39029, 20869, 23481, 65306, 10, 10]"

definition no_valid_content :: utext where
  "no_valid_content = str ''[Error] No valid page content to summarize.''"

text \<open>
  The loop of \<open>summarize_pages\<close> over \<open>enumerate(pages, 1)\<close>: a page whose content is
  empty or marked as failed is skipped, the others give one section each, numbered by
  their place in the input.
\<close>

definition page_section :: "nat \<Rightarrow> page \<Rightarrow> utext" where
  "page_section i item =
     str ''### Page '' @ str_of_nat i @ str '': '' @ title item @ [10] @
     take 10000 (content item)"

fun combined_texts :: "nat \<Rightarrow> page list \<Rightarrow> utext list" where
  "combined_texts i [] = []"
| "combined_texts i (item # rest) =
     (if content item = [] \<or> startswith (content item) error_marker
      then combined_texts (Suc i) rest
      else page_section i item # combined_texts (Suc i) rest)"

text \<open>
  \<open>summarize_pages\<close>: the model is called once, with the instruction followed by the
  sections, unless there is no section at all. The call may raise.
\<close>

definition summarize_pages :: "env \<Rightarrow> page list \<Rightarrow> world \<Rightarrow> (exn + utext) \<times> world" where
  "summarize_pages e pages w =
     (let texts = combined_texts 1 pages
      in if texts = [] then (Inr no_valid_content, w)
         else
           (let prompt = summary_instruction @ join [10, 10] texts
            in (deepseek_create e (clock w) prompt,
                w\<lparr>calls := calls w @ [DeepSeekCall prompt]\<rparr>)))"

section \<open>Model client (model/model\_client.py)\<close>

text \<open>
  \<open>prepare_messages\<close>: a text part is kept, an image path is replaced by the data URL of
  the file, and opening the file may raise.
\<close>

fun prepare_parts :: "env \<Rightarrow> part list \<Rightarrow> exn + vllm_part list" where
  "prepare_parts e [] = Inr []"
| "prepare_parts e (TextPart t # cs) =
     (case prepare_parts e cs of Inl exc \<Rightarrow> Inl exc | Inr rest \<Rightarrow> Inr (VText t # rest))"
| "prepare_parts e (ImagePath path # cs) =
     (case image_data_url e path of
        Inl exc \<Rightarrow> Inl exc
      | Inr data \<Rightarrow>
          (case prepare_parts e cs of
             Inl exc \<Rightarrow> Inl exc
           | Inr rest \<Rightarrow> Inr (VImageUrl data # rest)))"

fun prepare_messages :: "env \<Rightarrow> message list \<Rightarrow> exn + vllm_message list" where
  "prepare_messages e [] = Inr []"
| "prepare_messages e (m # ms) =
     (case prepare_parts e (msg_content m) of
        Inl exc \<Rightarrow> Inl exc
      | Inr cs \<Rightarrow>
          (case prepare_messages e ms of
             Inl exc \<Rightarrow> Inl exc
           | Inr rest \<Rightarrow> Inr (\<lparr>vllm_role = role m, vllm_content = cs\<rparr> # rest)))"

text \<open>
  The loop of \<open>stream_generate\<close> over the lines of the response: a line that is empty or
  does not start with \<open>data: \<close> is skipped, \<open>[DONE]\<close> ends the stream, a chunk that does
  not decode is skipped, and a non-empty delta is yielded.
\<close>

fun stream_deltas :: "env \<Rightarrow> utext list \<Rightarrow> utext list" where
  "stream_deltas e [] = []"
| "stream_deltas e (line # rest) =
     (if line = [] \<or> \<not> startswith line (str ''data: '') then stream_deltas e rest
      else
        (let data = strip (drop 6 line)
         in if data = str ''[DONE]'' then []
            else case chunk_delta e data of
              Inl exc \<Rightarrow> stream_deltas e rest
            | Inr delta \<Rightarrow>
                if delta \<noteq> [] then delta # stream_deltas e rest else stream_deltas e rest))"

text \<open>
  What a generator did when its consumer has read it to the end: the values it yielded,
  and the exception that ended it, if one did.
\<close>

record generated =
  yielded :: "utext list"
  raised :: "exn option"

text \<open>
  \<open>ModelClient.stream_generate\<close>. The messages are prepared before anything is yielded;
  \<open><think>\<close> is yielded before the request is made; a status other than 200 raises.
\<close>

definition stream_generate ::
  "env \<Rightarrow> message list \<Rightarrow> utext list \<Rightarrow> bool \<Rightarrow> world \<Rightarrow> generated \<times> world" where
  "stream_generate e msgs stop_strs include_stop w =
     (case prepare_messages e msgs of
        Inl exc \<Rightarrow> (\<lparr>yielded = [], raised = Some exc\<rparr>, w)
      | Inr vllm_messages \<Rightarrow>
          (let request = \<lparr>messages = vllm_messages, stop = stop_strs,
                          include_stop_str_in_output = include_stop\<rparr>;
               w' = w\<lparr>calls := calls w @ [VllmCall request]\<rparr>
           in case vllm_post e (clock w) request of
                Inl exc \<Rightarrow> (\<lparr>yielded = [str ''<think>''], raised = Some exc\<rparr>, w')
              | Inr resp \<Rightarrow>
                  if vllm_status resp \<noteq> 200 then
                    (\<lparr>yielded = [str ''<think>''],
                      raised = Some (Exception (str ''vLLM request failed: '' @
                        str_of_int (vllm_status resp) @ str '', '' @ vllm_text resp))\<rparr>, w')
                  else
                    (\<lparr>yielded = str ''<think>'' # stream_deltas e (vllm_lines resp),
                      raised = None\<rparr>, w')))"

section \<open>Agentic search loop (workflow/agentic\_search.py)\<close>

datatype event = Token utext | Done | Error utext

text \<open>
  The instruction that opens the first message (118 code points, ending with the label
  of the user's question); the query follows it.
\<close>

definition instruction :: utext where
  "instruction =
     [20320, 26159, 19968, 20010, 20855, 22791, 33258, 20027, 25628, 32034, 33021, 21147,
      30340, 26234, 33021, 21161, 29702, 12290, 10, 24403, 20320, 35748, 20026, 38656,
      35201, 22806, 37096, 20449, 24687, 26102, 65292, 35831, 29992, 20197, 19979, 26684,
      24335, 25552, 20986, 25628, 32034, 35831, 27714, 65306, 10, 60, 115, 101, 97, 114, 99,
      104, 62, 20855, 20307, 25628, 32034, 38382, 39064, 60, 47, 115, 101, 97, 114, 99, 104,
      62, 10, 10, 24403, 20449, 24687, 24050, 32463, 36275, 22815, 26102, 65292, 35831,
      32473, 20986, 26368, 32456, 31572, 26696, 65292, 19981, 35201, 20877, 36755, 20986,
      32, 60, 115, 101, 97, 114, 99, 104, 62, 60, 47, 115, 101, 97, 114, 99, 104, 62, 12290,
      10, 10, 29992, 25143, 38382, 39064, 65306]"

definition initial_history :: "utext \<Rightarrow> utext list \<Rightarrow> message list" where
  "initial_history query image_paths =
     [\<lparr>role = User, msg_content = TextPart (instruction @ query) # map ImagePath image_paths\<rparr>]"

definition assistant :: "utext \<Rightarrow> message" where
  "assistant t = \<lparr>role = Assistant, msg_content = [TextPart t]\<rparr>"

text \<open>
  The two texts built from a summary: the one streamed to the caller and the one put
  into the history.
\<close>

definition result_token :: "utext \<Rightarrow> utext" where
  "result_token summary = [10] @ str ''<search_result>'' @ summary @ str ''</search_result>'' @ [10]"

definition result_message :: "utext \<Rightarrow> utext" where
  "result_message summary = str ''<search_result>'' @ summary @ str ''</search_result>''"

text \<open>
  One pass through the body of the \<open>for\<close> loop: the events it yields, the history and the
  world after it, and how it ends: the loop goes on, the generator returns, or an
  exception leaves it.
\<close>

datatype ending = Continue | Return | Raise exn

record round =
  round_events :: "event list"
  round_history :: "message list"
  round_world :: world
  round_ending :: ending

definition agentic_round :: "env \<Rightarrow> message list \<Rightarrow> world \<Rightarrow> round" where
  "agentic_round e history w =
     (let (g, w1) = stream_generate e history [close_tag] True w;
          output = concat (yielded g);
          tokens = map Token (yielded g)
      in case raised g of
           Some exc \<Rightarrow>
             \<lparr>round_events = tokens, round_history = history, round_world = w1,
              round_ending = Raise exc\<rparr>
         | None \<Rightarrow>
             (case extract_search_query output of
                None \<Rightarrow>
                  \<lparr>round_events = tokens @ [Done], round_history = history, round_world = w1,
                   round_ending = Return\<rparr>
              | Some search_query \<Rightarrow>
                  if search_query = [] then
                    \<lparr>round_events = tokens @ [Done], round_history = history,
                     round_world = w1, round_ending = Return\<rparr>
                  else
                    (let (pages, w2) = search_and_fetch e search_query 5 w1;
                         (summary, w3) = summarize_pages e pages w2
                     in case summary of
                          Inl exc \<Rightarrow>
                            \<lparr>round_events = tokens, round_history = history,
                             round_world = w3, round_ending = Raise exc\<rparr>
                        | Inr summary_text \<Rightarrow>
                            \<lparr>round_events = tokens @ [Token (result_token summary_text)],
                             round_history = history @
                               [assistant output, assistant (result_message summary_text)],
                             round_world = w3, round_ending = Continue\<rparr>)))"

text \<open>
  What a whole run did: the events yielded, the final history and world, the number of
  generation rounds started, and the exception that ended the run, if one did.
\<close>

record run =
  events :: "event list"
  history :: "message list"
  final :: world
  rounds :: nat
  failure :: "exn option"

text \<open>
  The \<open>for\<close> loop with \<open>n\<close> rounds left, and the \<open>yield\<close> of the done event after it.
\<close>

fun agentic_loop :: "env \<Rightarrow> nat \<Rightarrow> message list \<Rightarrow> world \<Rightarrow> run" where
  "agentic_loop e 0 h w =
     \<lparr>events = [Done], history = h, final = w, rounds = 0, failure = None\<rparr>"
| "agentic_loop e (Suc n) h w =
     (let r = agentic_round e h w
      in case round_ending r of
           Return \<Rightarrow>
             \<lparr>events = round_events r, history = round_history r, final = round_world r,
              rounds = 1, failure = None\<rparr>
         | Raise exc \<Rightarrow>
             \<lparr>events = round_events r, history = round_history r, final = round_world r,
              rounds = 1, failure = Some exc\<rparr>
         | Continue \<Rightarrow>
             (let rest = agentic_loop e n (round_history r) (round_world r)
              in rest\<lparr>events := round_events r @ events rest, rounds := Suc (rounds rest)\<rparr>))"

definition max_rounds :: nat where
  "max_rounds = 20"

definition stream_agentic_search :: "env \<Rightarrow> utext \<Rightarrow> utext list \<Rightarrow> world \<Rightarrow> run" where
  "stream_agentic_search e query image_paths w =
     agentic_loop e max_rounds (initial_history query image_paths) w"

section \<open>Server (main.py)\<close>

text \<open>
  The generator \<open>sse\<close> of the \<open>/infer\<close> handler forwards every event and turns an
  exception of the workflow into one last error event.
\<close>

definition sse :: "run \<Rightarrow> event list" where
  "sse r = events r @ (case failure r of None \<Rightarrow> [] | Some exc \<Rightarrow> [Error (message exc)])"

text \<open>
  The registry \<open>active_tasks\<close> maps a task identifier to its cancellation event, which
  is set or not. The module creates it empty. \<open>/stop\<close> sets the event of a registered
  task; \<open>/infer\<close> in the agentic mode runs the loop and neither reads nor writes the
  registry.
\<close>

type_synonym registry = "utext \<rightharpoonup> bool"

datatype stop_status = Stopping | Not_found

definition stop_handler :: "registry \<Rightarrow> utext \<Rightarrow> stop_status \<times> registry" where
  "stop_handler active_tasks task_id =
     (case active_tasks task_id of
        Some cancel_event \<Rightarrow> (Stopping, active_tasks(task_id \<mapsto> True))
      | None \<Rightarrow> (Not_found, active_tasks))"

datatype request = Infer utext "utext list" | Stop utext

datatype response = Stream "event list" | Stopped stop_status utext

record server =
  active_tasks :: registry
  outside :: world

definition handle :: "env \<Rightarrow> server \<Rightarrow> request \<Rightarrow> response \<times> server" where
  "handle e s req =
     (case req of
        Infer query image_paths \<Rightarrow>
          (let r = stream_agentic_search e query image_paths (outside s)
           in (Stream (sse r), s\<lparr>outside := final r\<rparr>))
      | Stop task_id \<Rightarrow>
          (let (status, reg) = stop_handler (active_tasks s) task_id
           in (Stopped status task_id, s\<lparr>active_tasks := reg\<rparr>)))"

text \<open>
  The server answering a list of requests one after the other, from a given state.
\<close>

fun serve :: "env \<Rightarrow> server \<Rightarrow> request list \<Rightarrow> response list \<times> server" where
  "serve e s [] = ([], s)"
| "serve e s (req # reqs) =
     (let (resp, s1) = handle e s req;
          (resps, s2) = serve e s1 reqs
      in (resp # resps, s2))"

definition initial_server :: "world \<Rightarrow> server" where
  "initial_server w = \<lparr>active_tasks = Map.empty, outside = w\<rparr>"

section \<open>Vocabulary of the properties\<close>

text \<open>
  The text an event carries to the caller, and the text of a whole event stream.
\<close>

fun event_text :: "event \<Rightarrow> utext" where
  "event_text (Token t) = t"
| "event_text Done = []"
| "event_text (Error m) = []"

definition streamed_text :: "event list \<Rightarrow> utext" where
  "streamed_text evs = concat (map event_text evs)"

fun is_token :: "event \<Rightarrow> bool" where
  "is_token (Token t) = True"
| "is_token Done = False"
| "is_token (Error m) = False"

fun is_error :: "event \<Rightarrow> bool" where
  "is_error (Error m) = True"
| "is_error (Token t) = False"
| "is_error Done = False"

text \<open>
  An event stream that is token events followed by one last event, the terminal one.
\<close>

definition tokens_then :: "event list \<Rightarrow> (event \<Rightarrow> bool) \<Rightarrow> bool" where
  "tokens_then evs terminal =
     (evs \<noteq> [] \<and> list_all is_token (butlast evs) \<and> terminal (last evs))"

text \<open>
  The calls of a run that can raise do not: every image file of the history can be read,
  the model server answers every request with status 200, and the summarising model
  answers every prompt.
\<close>

definition readable :: "env \<Rightarrow> message list \<Rightarrow> bool" where
  "readable e h =
     (\<forall>m \<in> set h. \<forall>c \<in> set (msg_content m).
        case c of TextPart t \<Rightarrow> True
                | ImagePath path \<Rightarrow> (case image_data_url e path of Inl exc \<Rightarrow> False | Inr d \<Rightarrow> True))"

definition model_answers :: "env \<Rightarrow> bool" where
  "model_answers e =
     (\<forall>t request. \<exists>resp. vllm_post e t request = Inr resp \<and> vllm_status resp = 200)"

definition summariser_answers :: "env \<Rightarrow> bool" where
  "summariser_answers e = (\<forall>t prompt. \<exists>answer. deepseek_create e t prompt = Inr answer)"

section \<open>Properties of the text search\<close>

text \<open>
  What \<open>rfind\<close> returns, in terms of the occurrences of the searched text.
\<close>

lemma rfind_below_None:
  "rfind_below sub s lo n = None \<longleftrightarrow> (\<forall>i. lo \<le> i \<and> i < n \<longrightarrow> \<not> occurs_at sub s i)"
proof (induction n)
  case 0
  show ?case by simp
next
  case (Suc n)
  show ?case
  proof (cases "n < lo")
    case True
    then show ?thesis by auto
  next
    case False
    then have lo: "lo \<le> n" by simp
    show ?thesis
    proof (cases "occurs_at sub s n")
      case True
      with lo show ?thesis by auto
    next
      case False
      have "(\<forall>i. lo \<le> i \<and> i < Suc n \<longrightarrow> \<not> occurs_at sub s i)
              \<longleftrightarrow> (\<forall>i. lo \<le> i \<and> i < n \<longrightarrow> \<not> occurs_at sub s i)"
        using False by (auto simp: less_Suc_eq)
      with False lo Suc show ?thesis by simp
    qed
  qed
qed

lemma rfind_below_Some:
  "rfind_below sub s lo n = Some i \<longleftrightarrow>
     lo \<le> i \<and> i < n \<and> occurs_at sub s i \<and> (\<forall>j. i < j \<and> j < n \<longrightarrow> \<not> occurs_at sub s j)"
proof (induction n)
  case 0
  show ?case by simp
next
  case (Suc n)
  show ?case
  proof (cases "n < lo")
    case True
    then show ?thesis by auto
  next
    case False
    then have lo: "lo \<le> n" by simp
    show ?thesis
    proof (cases "occurs_at sub s n")
      case True
      have "(lo \<le> i \<and> i < Suc n \<and> occurs_at sub s i \<and>
              (\<forall>j. i < j \<and> j < Suc n \<longrightarrow> \<not> occurs_at sub s j)) \<longleftrightarrow> i = n"
      proof
        assume a: "lo \<le> i \<and> i < Suc n \<and> occurs_at sub s i \<and>
              (\<forall>j. i < j \<and> j < Suc n \<longrightarrow> \<not> occurs_at sub s j)"
        show "i = n"
        proof (rule ccontr)
          assume "i \<noteq> n"
          with a have "i < n" by simp
          with a True show False by auto
        qed
      next
        assume "i = n"
        with True lo show "lo \<le> i \<and> i < Suc n \<and> occurs_at sub s i \<and>
              (\<forall>j. i < j \<and> j < Suc n \<longrightarrow> \<not> occurs_at sub s j)" by auto
      qed
      with True lo show ?thesis by auto
    next
      case False
      have "(lo \<le> i \<and> i < Suc n \<and> occurs_at sub s i \<and>
              (\<forall>j. i < j \<and> j < Suc n \<longrightarrow> \<not> occurs_at sub s j)) \<longleftrightarrow>
            (lo \<le> i \<and> i < n \<and> occurs_at sub s i \<and>
              (\<forall>j. i < j \<and> j < n \<longrightarrow> \<not> occurs_at sub s j))"
        using False by (auto simp: less_Suc_eq)
      with False lo Suc show ?thesis by simp
    qed
  qed
qed

lemma rfind_None:
  "rfind s sub 0 hi = None \<longleftrightarrow>
     (\<forall>i. occurs_at sub s i \<longrightarrow> hi < i + length sub)"
proof (cases "min hi (length s) < length sub")
  case True
  then have "\<forall>i. occurs_at sub s i \<longrightarrow> hi < i + length sub"
    by (auto simp: occurs_at_def)
  with True show ?thesis by (simp add: rfind_def)
next
  case False
  define e where "e = min hi (length s)"
  from False have le: "length sub \<le> e" unfolding e_def by linarith
  have eq: "rfind s sub 0 hi = rfind_below sub s 0 (Suc (e - length sub))"
    using False by (simp add: rfind_def e_def del: rfind_below.simps)
  have "(\<forall>i. 0 \<le> i \<and> i < Suc (e - length sub) \<longrightarrow> \<not> occurs_at sub s i)
     \<longleftrightarrow> (\<forall>i. occurs_at sub s i \<longrightarrow> hi < i + length sub)"
  proof -
    have "\<And>i. occurs_at sub s i \<Longrightarrow> (i < Suc (e - length sub) \<longleftrightarrow> \<not> hi < i + length sub)"
      using le by (auto simp: occurs_at_def e_def)
    then show ?thesis by auto
  qed
  then show ?thesis unfolding eq rfind_below_None .
qed

lemma rfind_Some:
  "rfind s sub 0 hi = Some i \<longleftrightarrow>
     occurs_at sub s i \<and> i + length sub \<le> hi \<and>
     (\<forall>j. i < j \<and> occurs_at sub s j \<longrightarrow> hi < j + length sub)"
proof (cases "min hi (length s) < length sub")
  case True
  then have "\<not> (occurs_at sub s i \<and> i + length sub \<le> hi)"
    by (auto simp: occurs_at_def)
  with True show ?thesis by (auto simp add: rfind_def)
next
  case False
  define e where "e = min hi (length s)"
  from False have le: "length sub \<le> e" unfolding e_def by linarith
  have inr: "\<And>k. occurs_at sub s k \<Longrightarrow> (k < Suc (e - length sub) \<longleftrightarrow> \<not> hi < k + length sub)"
    using le by (auto simp: occurs_at_def e_def)
  have eq: "rfind s sub 0 hi = rfind_below sub s 0 (Suc (e - length sub))"
    using False by (simp add: rfind_def e_def del: rfind_below.simps)
  have "rfind s sub 0 hi = Some i \<longleftrightarrow>
      0 \<le> i \<and> i < Suc (e - length sub) \<and> occurs_at sub s i \<and>
      (\<forall>j. i < j \<and> j < Suc (e - length sub) \<longrightarrow> \<not> occurs_at sub s j)"
    unfolding eq rfind_below_Some ..
  also have "\<dots> \<longleftrightarrow> occurs_at sub s i \<and> i + length sub \<le> hi \<and>
     (\<forall>j. i < j \<and> occurs_at sub s j \<longrightarrow> hi < j + length sub)"
    using inr by (auto simp: not_less)
  finally show ?thesis .
qed

lemma occurs_at_bound: "occurs_at sub s i \<Longrightarrow> i + length sub \<le> length s"
  by (simp add: occurs_at_def)

lemma length_tags [simp]: "length close_tag = 9" "length open_tag = 8"
  by (simp_all add: close_tag_def open_tag_def str_def)

lemma last_close_rfind:
  "last_close txt i \<longleftrightarrow> rfind txt close_tag 0 (length txt) = Some i"
proof -
  have "(\<forall>k \<in> {i <.. length txt}. \<not> occurs_at close_tag txt k) \<longleftrightarrow>
        (\<forall>j. i < j \<and> occurs_at close_tag txt j \<longrightarrow> length txt < j + length close_tag)"
    using occurs_at_bound [of close_tag "txt"] by fastforce
  moreover have "occurs_at close_tag txt i \<Longrightarrow> i + length close_tag \<le> length txt"
    by (rule occurs_at_bound)
  ultimately show ?thesis
    unfolding last_close_def rfind_Some by blast
qed

lemma last_open_before_rfind:
  "last_open_before txt i j \<longleftrightarrow> rfind txt open_tag 0 i = Some j"
proof -
  have "(\<forall>k \<in> {j <.. i}. occurs_at open_tag txt k \<longrightarrow> i < k + length open_tag) \<longleftrightarrow>
        (\<forall>k. j < k \<and> occurs_at open_tag txt k \<longrightarrow> i < k + length open_tag)"
    by fastforce
  then show ?thesis
    unfolding last_open_before_def rfind_Some by blast
qed

lemma extract_Some_span:
  assumes "last_close txt i" and "last_open_before txt i j"
  shows "extract_search_query txt = Some (strip (slice txt (j + length open_tag) i))"
proof -
  from assms(1) have "txt \<noteq> []"
    by (auto simp: last_close_def occurs_at_def)
  with assms show ?thesis
    by (simp add: extract_search_query_def last_close_rfind last_open_before_rfind)
qed

lemma extract_None_iff:
  "extract_search_query txt = None \<longleftrightarrow> (\<forall>j i. \<not> complete_span txt j i)"
proof
  assume none: "extract_search_query txt = None"
  show "\<forall>j i. \<not> complete_span txt j i"
  proof (intro allI notI)
    fix j i
    assume sp: "complete_span txt j i"
    then have ne: "txt \<noteq> []" by (auto simp: complete_span_def occurs_at_def)
    from sp have "rfind txt close_tag 0 (length txt) \<noteq> None"
      unfolding rfind_None complete_span_def using occurs_at_bound [of close_tag "txt" i]
      by auto
    then obtain c where c: "rfind txt close_tag 0 (length txt) = Some c" by auto
    then have "i \<le> c"
      unfolding rfind_Some using sp occurs_at_bound [of close_tag "txt" i]
      by (auto simp: complete_span_def not_less [symmetric])
    with sp have "rfind txt open_tag 0 c \<noteq> None"
      unfolding rfind_None complete_span_def by auto
    then obtain d where "rfind txt open_tag 0 c = Some d" by auto
    with c ne none show False by (simp add: extract_search_query_def)
  qed
next
  assume no: "\<forall>j i. \<not> complete_span txt j i"
  show "extract_search_query txt = None"
  proof (rule ccontr)
    assume "extract_search_query txt \<noteq> None"
    then obtain c d where "rfind txt close_tag 0 (length txt) = Some c"
      and "rfind txt open_tag 0 c = Some d"
      by (auto simp: extract_search_query_def split: if_splits option.splits)
    then have "complete_span txt d c"
      by (simp add: rfind_Some complete_span_def)
    with no show False by blast
  qed
qed

lemma occurs_at_append:
  "occurs_at sub (p @ s) (length p + d) = occurs_at sub s d"
  by (simp add: occurs_at_def)

lemma occurs_at_append_ge:
  assumes "length p \<le> k"
  shows "occurs_at sub (p @ s) k = occurs_at sub s (k - length p)"
  using occurs_at_append [of sub p s "k - length p"] assms by simp

lemma rfind_append:
  assumes "rfind s sub 0 h = Some d"
  shows "rfind (p @ s) sub 0 (length p + h) = Some (length p + d)"
proof -
  from assms have occ: "occurs_at sub s d" and le: "d + length sub \<le> h"
    and mx: "\<And>j. d < j \<Longrightarrow> occurs_at sub s j \<Longrightarrow> h < j + length sub"
    unfolding rfind_Some by blast+
  have "\<And>j. length p + d < j \<Longrightarrow> occurs_at sub (p @ s) j \<Longrightarrow> length p + h < j + length sub"
  proof -
    fix j assume j: "length p + d < j" and o: "occurs_at sub (p @ s) j"
    then have "occurs_at sub s (j - length p)" by (simp add: occurs_at_append_ge)
    moreover from j have "d < j - length p" by simp
    ultimately have "h < (j - length p) + length sub" by (rule mx [rotated])
    with j show "length p + h < j + length sub" by simp
  qed
  with occ le show ?thesis
    unfolding rfind_Some by (simp add: occurs_at_append)
qed

lemma slice_append: "slice (p @ s) (length p + a) (length p + b) = slice s a b"
  by (simp add: slice_def)

lemma extract_append:
  assumes "extract_search_query s = Some q"
  shows "extract_search_query (p @ s) = Some q"
proof -
  from assms obtain c d where c: "rfind s close_tag 0 (length s) = Some c"
    and d: "rfind s open_tag 0 c = Some d"
    and q: "q = strip (slice s (d + length open_tag) c)"
    by (auto simp: extract_search_query_def split: if_splits option.splits)
  from assms have ne: "s \<noteq> []" by (auto simp: extract_search_query_def)
  have c': "rfind (p @ s) close_tag 0 (length (p @ s)) = Some (length p + c)"
    using rfind_append [OF c, of p] by simp
  have d': "rfind (p @ s) open_tag 0 (length p + c) = Some (length p + d)"
    using d by (rule rfind_append)
  have sl: "slice (p @ s) (length p + (d + length open_tag)) (length p + c)
      = slice s (d + length open_tag) c"
    by (rule slice_append)
  from ne have "p @ s \<noteq> []" by simp
  then show ?thesis
    by (simp only: extract_search_query_def c' d' q if_False option.case Let_def sl add.assoc)
qed


lemma extract_example:
  "extract_search_query (str ''<search>first</search> filler <search>second</search>'')
     = Some (str ''second'')"
  by (simp add: extract_search_query_def str_def rfind_def close_tag_def open_tag_def
      occurs_at_def strip_def isspace_def slice_def)

lemma strip_all_space:
  assumes "\<forall>c \<in> set s. isspace c"
  shows "strip s = []"
proof -
  from assms have d: "dropWhile isspace s = []" by simp
  show ?thesis by (simp only: strip_def d dropWhile.simps rev.simps)
qed

section \<open>The extracted directive\<close>

lemma last_close_example: "last_close (str ''<search> a </search>'') 11"
  unfolding last_close_rfind
  by (simp add: str_def rfind_def close_tag_def occurs_at_def)

lemma last_open_example: "last_open_before (str ''<search> a </search>'') 11 0"
  unfolding last_open_before_rfind
  by (simp add: str_def rfind_def open_tag_def occurs_at_def)

text \<open>
  Claim C1. When \<open>i\<close> is the rightmost closing tag of the text and \<open>j\<close> the rightmost
  opening tag that ends at or before \<open>i\<close>, the extraction returns the text between the
  two tags with the whitespace at both of its ends removed. For the spec's example,
  after any text whatever, the result is \<open>second\<close>.
\<close>

theorem extract_last_span:
  "(last_close txt i \<and> last_open_before txt i j \<longrightarrow>
      extract_search_query txt = Some (strip (slice txt (j + length open_tag) i))) \<and>
   extract_search_query (p @ str ''<search>first</search> filler <search>second</search>'')
     = Some (str ''second'')"
proof
  show "last_close txt i \<and> last_open_before txt i j \<longrightarrow>
      extract_search_query txt = Some (strip (slice txt (j + length open_tag) i))"
    using extract_Some_span by blast
  show "extract_search_query (p @ str ''<search>first</search> filler <search>second</search>'')
     = Some (str ''second'')"
    using extract_example by (rule extract_append)
qed

theorem extract_last_span_witness:
  "last_close (str ''<search> a </search>'') 11 \<and>
   last_open_before (str ''<search> a </search>'') 11 0 \<and>
   extract_search_query (str ''<search> a </search>'') = Some (str ''a'')"
proof -
  have "strip (slice (str ''<search> a </search>'') (0 + length open_tag) 11) = str ''a''"
    by (simp add: slice_def str_def strip_def isspace_def)
  with extract_last_span [of "str ''<search> a </search>''" 11 0 "[]"]
    last_close_example last_open_example
  show ?thesis by simp
qed

theorem extract_keeps_no_outer_space:
  "occurs_at open_tag (str ''<search> a </search>'') 0 \<and>
   occurs_at close_tag (str ''<search> a </search>'') 11 \<and>
   slice (str ''<search> a </search>'') (0 + length open_tag) 11 = str '' a '' \<and>
   extract_search_query (str ''<search> a </search>'') = Some (str ''a'') \<and>
   extract_search_query (str ''<search> a </search>'')
     \<noteq> Some (slice (str ''<search> a </search>'') (0 + length open_tag) 11)"
  by (simp add: extract_search_query_def str_def rfind_def close_tag_def open_tag_def
      occurs_at_def strip_def isspace_def slice_def)

end
